theory Spec2Isabelle
  imports Main
begin

section \<open>Values, exceptions and effectful callbacks\<close>

text \<open>
  A TypeScript value of type \<open>T | undefined\<close>: either the host language's sentinel
  \<open>undefined\<close> or a proper value. A type parameter \<open>T\<close> of the library may itself
  contain \<open>undefined\<close>, so the payload of an \<open>Option<T>\<close> is a \<open>'a jsval\<close> throughout.
\<close>

datatype 'a jsval = Undefined | Val 'a

text \<open>
  What a call can throw: an \<open>Error\<close> object with its message (the only thing the library
  itself throws in \<open>Option.ts\<close>), or any other value thrown by a caller's function.
\<close>

datatype 'x exn = Error string | Thrown 'x

text \<open>
  A function supplied by the caller may have side effects and may throw. It is a state
  transformer over the caller's state \<open>'s\<close> that returns a value (\<open>Inr\<close>) or the
  exception thrown (\<open>Inl\<close>) together with the state it leaves behind. A function
  that is never invoked leaves the state untouched whatever it would have done.
\<close>

type_synonym ('s, 'x, 'a) comp = "'s \<Rightarrow> ('x exn + 'a) \<times> 's"

section \<open>Option.ts\<close>

text \<open>
  \<^verbatim>\<open>class Option<T> { protected readonly _value: T | undefined;
                     protected readonly _isSome: boolean }\<close>
  The class has two fields; the variant is the boolean tag, the payload is stored beside it.
\<close>

record 'a Option =
  p_value :: "'a jsval"
  p_isSome :: bool

definition Option_Some :: "'a jsval \<Rightarrow> 'a Option" where
  "Option_Some v = \<lparr>p_value = v, p_isSome = True\<rparr>"

definition Option_None :: "'a Option" where
  "Option_None = \<lparr>p_value = Undefined, p_isSome = False\<rparr>"

definition Option_isSome :: "'a Option \<Rightarrow> bool" where
  "Option_isSome this = p_isSome this"

definition Option_isNone :: "'a Option \<Rightarrow> bool" where
  "Option_isNone this = (\<not> p_isSome this)"

definition Option_unwrap :: "'a Option \<Rightarrow> 'x exn + 'a jsval" where
  "Option_unwrap this =
     (if p_isSome this then Inr (p_value this)
      else Inl (Error ''Called Option::unwrap on None''))"

definition Option_unwrapOr :: "'a Option \<Rightarrow> 'a jsval \<Rightarrow> 'a jsval" where
  "Option_unwrapOr this defaultValue =
     (if p_isSome this then p_value this else defaultValue)"

definition Option_unwrapOrElse :: "'a Option \<Rightarrow> ('s, 'x, 'a jsval) comp \<Rightarrow> ('s, 'x, 'a jsval) comp" where
  "Option_unwrapOrElse this defaultValue s =
     (if p_isSome this then (Inr (p_value this), s) else defaultValue s)"

definition Option_map ::
  "'a Option \<Rightarrow> ('a jsval \<Rightarrow> ('s, 'x, 'b jsval) comp) \<Rightarrow> ('s, 'x, 'b Option) comp" where
  "Option_map this f s =
     (if p_isSome this then
        (case f (p_value this) s of
           (Inl e, s') \<Rightarrow> (Inl e, s')
         | (Inr u, s') \<Rightarrow> (Inr (Option_Some u), s'))
      else (Inr Option_None, s))"

definition Option_or :: "'a Option \<Rightarrow> 'a Option \<Rightarrow> 'a Option" where
  "Option_or this other = (if p_isSome this then this else other)"

definition Option_orElse :: "'a Option \<Rightarrow> ('s, 'x, 'a Option) comp \<Rightarrow> ('s, 'x, 'a Option) comp" where
  "Option_orElse this defaultValue s =
     (if p_isSome this then (Inr this, s) else defaultValue s)"

definition Option_and :: "'a Option \<Rightarrow> 'b Option \<Rightarrow> 'b Option" where
  "Option_and this other = (if p_isSome this then other else Option_None)"

definition Option_andThen ::
  "'a Option \<Rightarrow> ('a jsval \<Rightarrow> ('s, 'x, 'b Option) comp) \<Rightarrow> ('s, 'x, 'b Option) comp" where
  "Option_andThen this other s =
     (if p_isSome this then other (p_value this) s else (Inr Option_None, s))"

definition Option_match ::
  "'a Option \<Rightarrow> ('a jsval \<Rightarrow> ('s, 'x, 'u) comp) \<Rightarrow> ('s, 'x, 'u) comp \<Rightarrow> ('s, 'x, 'u) comp" where
  "Option_match this some none s =
     (if p_isSome this then some (p_value this) s else none s)"

text \<open>
  Method chaining \<open>a.m1(...).m2(...)\<close>: the second call runs on the value of the first,
  in the state the first left; an exception of the first ends the chain.
\<close>

definition chain :: "('s, 'x, 'a) comp \<Rightarrow> ('a \<Rightarrow> ('s, 'x, 'b) comp) \<Rightarrow> ('s, 'x, 'b) comp" where
  "chain m k s = (case m s of (Inl e, s') \<Rightarrow> (Inl e, s') | (Inr a, s') \<Rightarrow> k a s')"

definition lift :: "('x exn + 'a) \<Rightarrow> ('s, 'x, 'a) comp" where
  "lift r s = (r, s)"

section \<open>Result\<close>

text \<open>
  Modelled from the spec: \<open>Result.ts\<close>, which \<open>Future.ts\<close> imports, is not among the
  sources. The spec gives \<open>Result<T,E>\<close> as a tagged union with the two variants
  \<open>Ok(value)\<close> and \<open>Err(error)\<close>, created by the factory functions \<open>ok\<close> and \<open>err\<close>.
\<close>

datatype ('t, 'e) Result = Ok 't | Err 'e

text \<open>
  What can be thrown or be a rejection reason on the asynchronous side: the two
  failures of \<open>Result\<close>'s accessors, the host's \<open>TypeError\<close> for a method call on
  \<open>undefined\<close>, and any other reason \<open>'r\<close> that comes from outside the library.
\<close>

datatype ('e, 'r) failure = TypeError | UnwrapOnErr 'e | UnwrapErrOnOk | Native 'r

text \<open>Modelled from the spec: the factory \<open>Result.ok\<close> of the missing \<open>Result.ts\<close>.\<close>

definition Result_ok :: "'t \<Rightarrow> ('t, 'e) Result" where
  "Result_ok v = Ok v"

text \<open>Modelled from the spec: the factory \<open>Result.err\<close> of the missing \<open>Result.ts\<close>.\<close>

definition Result_err :: "'e \<Rightarrow> ('t, 'e) Result" where
  "Result_err e = Err e"

text \<open>Modelled from the spec: \<open>isOk() -> bool\<close> of the missing \<open>Result.ts\<close>, the variant test.\<close>

fun Result_isOk :: "('t, 'e) Result \<Rightarrow> bool" where
  "Result_isOk (Ok v) = True"
| "Result_isOk (Err e) = False"

text \<open>
  Modelled from the spec: \<open>unwrap() -> T\<close> of the missing \<open>Result.ts\<close>: "returns success
  payload; fails with an error embedding the Err payload if called on Err".
\<close>

fun Result_unwrap :: "('t, 'e) Result \<Rightarrow> ('e, 'r) failure + 't" where
  "Result_unwrap (Ok v) = Inr v"
| "Result_unwrap (Err e) = Inl (UnwrapOnErr e)"

text \<open>
  Modelled from the spec: \<open>unwrapErr() -> E\<close> of the missing \<open>Result.ts\<close>: "returns error
  payload; fails if called on Ok".
\<close>

fun Result_unwrapErr :: "('t, 'e) Result \<Rightarrow> ('e, 'r) failure + 'e" where
  "Result_unwrapErr (Err e) = Inr e"
| "Result_unwrapErr (Ok v) = Inl UnwrapErrOnOk"

section \<open>The host's promises\<close>

text \<open>
  \<open>Future\<close> extends the host's \<open>Promise\<close>. A promise is a one-shot cell: pending,
  fulfilled with a value, or rejected with a reason. Its resolving functions act only on
  a pending promise; on a settled one they return without effect. (The library only ever
  resolves with a \<open>Result\<close>, which has no \<open>then\<close> method, so resolving is fulfilling.)
\<close>

datatype ('a, 'x) promise = Pending | Fulfilled 'a | Rejected 'x

definition resolve :: "'a \<Rightarrow> ('a, 'x) promise \<Rightarrow> ('a, 'x) promise" where
  "resolve v p = (case p of Pending \<Rightarrow> Fulfilled v | Fulfilled w \<Rightarrow> p | Rejected x \<Rightarrow> p)"

definition reject :: "'x \<Rightarrow> ('a, 'x) promise \<Rightarrow> ('a, 'x) promise" where
  "reject x p = (case p of Pending \<Rightarrow> Rejected x | Fulfilled w \<Rightarrow> p | Rejected y \<Rightarrow> p)"

text \<open>
  An executor is a function \<open>(f, g) => void\<close> of the caller's. All it can do to the
  promise under construction is call the two functions it is handed, any number of
  times, while it runs or later (from a timer or another promise's reaction), and throw
  while it runs. So an executor is given by what it does, in the order of time:
  the calls it makes before it returns or throws, the value it throws if it throws, and
  the calls made after it has returned or thrown.
\<close>

record ('c, 'x) executor =
  sync :: "'c list"
  throws :: "'x option"
  later :: "'c list"

text \<open>A call of one of the resolving functions of \<open>new Promise((resolve, reject) => ...)\<close>.\<close>

datatype ('a, 'x) settle = Resolve 'a | Reject 'x

fun apply_settle :: "('a, 'x) settle \<Rightarrow> ('a, 'x) promise \<Rightarrow> ('a, 'x) promise" where
  "apply_settle (Resolve v) p = resolve v p"
| "apply_settle (Reject x) p = reject x p"

text \<open>
  \<open>new Promise(executor)\<close>: the promise starts pending and the executor runs at once;
  when the executor throws, the constructor calls \<open>reject\<close> with the thrown value.
  The value is the promise as it ends up once every call has been made.
\<close>

definition Promise_constructor :: "(('a, 'x) settle, 'x) executor \<Rightarrow> ('a, 'x) promise" where
  "Promise_constructor ex =
     (let p1 = fold apply_settle (sync ex) Pending;
          p2 = (case throws ex of None \<Rightarrow> p1 | Some x \<Rightarrow> reject x p1)
      in fold apply_settle (later ex) p2)"

text \<open>
  A reaction function handed to \<open>then\<close> or \<open>catch\<close>: the calls of the enclosing
  executor's callbacks that it makes, and the value it returns (\<open>Inr\<close>) or throws (\<open>Inl\<close>).
  \<open>p.then(onFulfilled)\<close> and \<open>p.catch(onRejected)\<close> give the calls made once \<open>p\<close> has
  settled and the derived promise: a reaction that throws rejects it, a settlement without
  a handler passes through, and nothing happens while \<open>p\<close> stays pending.
\<close>

definition promise_then ::
  "('a, 'x) promise \<Rightarrow> ('a \<Rightarrow> 'c list \<times> ('x + 'b)) \<Rightarrow> 'c list \<times> ('b, 'x) promise" where
  "promise_then p onFulfilled =
     (case p of
        Pending \<Rightarrow> ([], Pending)
      | Fulfilled v \<Rightarrow>
          (case onFulfilled v of
             (cs, Inl x) \<Rightarrow> (cs, Rejected x)
           | (cs, Inr b) \<Rightarrow> (cs, Fulfilled b))
      | Rejected x \<Rightarrow> ([], Rejected x))"

definition promise_catch ::
  "('a, 'x) promise \<Rightarrow> ('x \<Rightarrow> 'c list \<times> ('x + 'a)) \<Rightarrow> 'c list \<times> ('a, 'x) promise" where
  "promise_catch p onRejected =
     (case p of
        Pending \<Rightarrow> ([], Pending)
      | Fulfilled v \<Rightarrow> ([], Fulfilled v)
      | Rejected x \<Rightarrow>
          (case onRejected x of
             (cs, Inl y) \<Rightarrow> (cs, Rejected y)
           | (cs, Inr b) \<Rightarrow> (cs, Fulfilled b)))"

text \<open>
  \<open>Promise.all(promises)\<close>, as the host runs it. It keeps an array with one slot per
  input (\<open>undefined\<close>, here \<open>None\<close>, until written), a count of the inputs still
  awaited and the promise it returns. Input \<open>index\<close> fulfilling with \<open>x\<close> runs that
  input's resolve-element function: it writes slot \<open>index\<close>, lowers the count and, at
  zero, resolves the returned promise with the array. An input rejecting rejects the
  returned promise. \<open>order\<close> lists the inputs' indices in the order in which they
  complete.
\<close>

record ('a, 'x) all_state =
  elements :: "'a option list"
  alreadyCalled :: "nat set"
  remainingElementsCount :: nat
  capability :: "('a option list, 'x) promise"

definition all_start :: "nat \<Rightarrow> ('a, 'x) all_state" where
  "all_start n =
     (let s = \<lparr>elements = replicate n None, alreadyCalled = {},
               remainingElementsCount = (1 + n) - 1, capability = Pending\<rparr>
      in if remainingElementsCount s = 0
         then s\<lparr>capability := resolve (elements s) (capability s)\<rparr> else s)"

definition resolveElement :: "nat \<Rightarrow> 'a \<Rightarrow> ('a, 'x) all_state \<Rightarrow> ('a, 'x) all_state" where
  "resolveElement index x s =
     (if index \<in> alreadyCalled s then s
      else
        (let s1 = s\<lparr>alreadyCalled := insert index (alreadyCalled s),
                    elements := (elements s)[index := Some x],
                    remainingElementsCount := remainingElementsCount s - 1\<rparr>
         in if remainingElementsCount s1 = 0
            then s1\<lparr>capability := resolve (elements s1) (capability s1)\<rparr> else s1))"

definition settles :: "('a, 'x) promise list \<Rightarrow> nat \<Rightarrow> ('a, 'x) all_state \<Rightarrow> ('a, 'x) all_state" where
  "settles promises index s =
     (if index < length promises then
        (case promises ! index of
           Pending \<Rightarrow> s
         | Fulfilled v \<Rightarrow> resolveElement index v s
         | Rejected x \<Rightarrow> s\<lparr>capability := reject x (capability s)\<rparr>)
      else s)"

definition Promise_all :: "('a, 'x) promise list \<Rightarrow> nat list \<Rightarrow> ('a option list, 'x) promise" where
  "Promise_all promises order =
     capability (fold (settles promises) order (all_start (length promises)))"

section \<open>Future.ts\<close>

text \<open>A call of one of the two callbacks \<open>ok\<close> and \<open>err\<close> that a Future's executor is handed.\<close>

datatype ('t, 'e) call = CallOk 't | CallErr 'e

text \<open>
  \<^verbatim>\<open>super((resolve) => { executor((value) => resolve(Result.ok(value)),
                                    (reason) => resolve(Result.err(reason))) })\<close>
  Each call of the executor's first callback is a call of \<open>resolve\<close> with an \<open>Ok\<close>, each
  call of its second one a call of \<open>resolve\<close> with an \<open>Err\<close>; the function handed to
  \<open>super\<close> throws what the executor throws.
\<close>

fun wire :: "('t, 'e) call \<Rightarrow> (('t, 'e) Result, 'x) settle" where
  "wire (CallOk v) = Resolve (Result_ok v)"
| "wire (CallErr reason) = Resolve (Result_err reason)"

definition Future_constructor :: "(('t, 'e) call, 'x) executor \<Rightarrow> (('t, 'e) Result, 'x) promise" where
  "Future_constructor ex =
     Promise_constructor \<lparr>sync = map wire (sync ex), throws = throws ex, later = map wire (later ex)\<rparr>"

text \<open>The callbacks \<open>ok\<close> and \<open>err\<close> used as reaction functions: one call, returning \<open>undefined\<close>.\<close>

definition ok_cb :: "'t \<Rightarrow> ('t, 'e) call list \<times> ('x + unit)" where
  "ok_cb v = ([CallOk v], Inr ())"

definition err_cb :: "'e \<Rightarrow> ('t, 'e) call list \<times> ('x + unit)" where
  "err_cb reason = ([CallErr reason], Inr ())"

text \<open>
  A value of static type \<open>Promise<T>\<close>, as \<open>from\<close> and \<open>parse\<close> take it: a plain promise
  of the host, or an instance of the subclass \<open>Future\<close> (a \<open>Future<A,B>\<close> is a
  \<open>Promise<Result<A,B>>\<close>). Both are in one of the three states of a promise; they differ
  in what \<open>then\<close> and \<open>catch\<close> derive.
\<close>

datatype ('a, 'x) async = NativePromise "('a, 'x) promise" | FutureInstance "('a, 'x) promise"

text \<open>
  \<open>then\<close> creates the promise it returns with the receiver's species constructor. For a
  plain promise that is \<open>Promise\<close>: \<open>promise_then\<close> and \<open>promise_catch\<close> above. For an
  instance of \<open>Future\<close> it is \<open>Future\<close>, which the class does not override: the derived
  promise is \<open>new Future(executor)\<close>, and the two functions the host keeps to settle it are
  the two callbacks of the Future constructor. So what the host would resolve the derived
  promise with arrives at the first callback (\<open>resolve(Result.ok(value))\<close>) and what it
  would reject it with arrives at the second (\<open>resolve(Result.err(reason))\<close>).
\<close>

definition derived_Future :: "('b, 'x) call list \<Rightarrow> (('b, 'x) Result, 'x) promise" where
  "derived_Future calls = Future_constructor \<lparr>sync = [], throws = None, later = calls\<rparr>"

definition Future_then ::
  "('a, 'x) promise \<Rightarrow> ('a \<Rightarrow> 'c list \<times> ('x + 'b)) \<Rightarrow> 'c list \<times> (('b, 'x) Result, 'x) promise" where
  "Future_then p onFulfilled =
     (case p of
        Pending \<Rightarrow> ([], derived_Future [])
      | Fulfilled v \<Rightarrow>
          (case onFulfilled v of
             (cs, Inl x) \<Rightarrow> (cs, derived_Future [CallErr x])
           | (cs, Inr b) \<Rightarrow> (cs, derived_Future [CallOk b]))
      | Rejected x \<Rightarrow> ([], derived_Future [CallErr x]))"

text \<open>
  \<open>catch\<close> on an instance of \<open>Future\<close>. The derived Future holds the receiver's value
  (\<open>Inl\<close>) or what the handler returned (\<open>Inr\<close>): the union \<open>T | TResult\<close> of the host's
  typing of \<open>catch\<close>.
\<close>

definition Future_catch ::
  "('a, 'x) promise \<Rightarrow> ('x \<Rightarrow> 'c list \<times> ('x + 'b)) \<Rightarrow> 'c list \<times> (('a + 'b, 'x) Result, 'x) promise" where
  "Future_catch p onRejected =
     (case p of
        Pending \<Rightarrow> ([], derived_Future [])
      | Fulfilled v \<Rightarrow> ([], derived_Future [CallOk (Inl v)])
      | Rejected x \<Rightarrow>
          (case onRejected x of
             (cs, Inl y) \<Rightarrow> (cs, derived_Future [CallErr y])
           | (cs, Inr b) \<Rightarrow> (cs, derived_Future [CallOk (Inr b)])))"

text \<open>
  \<^verbatim>\<open>new Future((ok, err) => { promise.then(ok).catch(err) })\<close>
  The calls of \<open>ok\<close> and \<open>err\<close> that the two reactions make. On an instance of \<open>Future\<close>
  the receiver of \<open>catch\<close> is the Future that \<open>then\<close> derived.
\<close>

definition from_reactions :: "('t, 'e) async \<Rightarrow> ('t, 'e) call list" where
  "from_reactions promise =
     (case promise of
        NativePromise p \<Rightarrow>
          (case promise_then p ok_cb of
             (cs1, p1) \<Rightarrow> (case promise_catch p1 err_cb of (cs2, p2) \<Rightarrow> cs1 @ cs2))
      | FutureInstance p \<Rightarrow>
          (case Future_then p ok_cb of
             (cs1, p1) \<Rightarrow> (case Future_catch p1 err_cb of (cs2, p2) \<Rightarrow> cs1 @ cs2)))"

definition Future_from :: "('t, 'e) async \<Rightarrow> (('t, 'e) Result, 'x) promise" where
  "Future_from promise =
     Future_constructor \<lparr>sync = [], throws = None, later = from_reactions promise\<rparr>"

text \<open>
  \<^verbatim>\<open>promise.then((result) => { if (result.isOk()) { ok(result.unwrap()) }
                               else { err(result.unwrapErr()) } })\<close>
\<close>

definition parse_onFulfilled ::
  "('t, 'e) Result \<Rightarrow> ('t, 'e) call list \<times> (('e, 'r) failure + unit)" where
  "parse_onFulfilled result =
     (if Result_isOk result then
        (case Result_unwrap result of Inl x \<Rightarrow> ([], Inl x) | Inr v \<Rightarrow> ok_cb v)
      else
        (case Result_unwrapErr result of Inl x \<Rightarrow> ([], Inl x) | Inr e \<Rightarrow> err_cb e))"

text \<open>
  The promise that the \<open>then\<close> in \<open>parse\<close> derives and nothing holds on to: a plain
  promise when the argument is one, a Future when the argument is a Future.
\<close>

datatype ('a, 'x) derived =
  DerivedPromise "('a, 'x) promise" | DerivedFuture "(('a, 'x) Result, 'x) promise"

definition parse_reactions ::
  "(('t, 'e) Result, ('e, 'r) failure) async \<Rightarrow>
     ('t, 'e) call list \<times> (unit, ('e, 'r) failure) derived" where
  "parse_reactions promise =
     (case promise of
        NativePromise p \<Rightarrow>
          (case promise_then p parse_onFulfilled of (cs, d) \<Rightarrow> (cs, DerivedPromise d))
      | FutureInstance p \<Rightarrow>
          (case Future_then p parse_onFulfilled of (cs, d) \<Rightarrow> (cs, DerivedFuture d)))"

definition Future_parse ::
  "(('t, 'e) Result, ('e, 'r) failure) async \<Rightarrow> (('t, 'e) Result, 'x) promise" where
  "Future_parse promise =
     Future_constructor \<lparr>sync = [], throws = None, later = fst (parse_reactions promise)\<rparr>"

text \<open>\<^verbatim>\<open>new Future((ok) => { ok(value) })\<close> and \<^verbatim>\<open>new Future((_, err) => { err(reason) })\<close>\<close>

definition Future_ok :: "'t \<Rightarrow> (('t, 'e) Result, 'x) promise" where
  "Future_ok v = Future_constructor \<lparr>sync = [CallOk v], throws = None, later = []\<rparr>"

definition Future_err :: "'e \<Rightarrow> (('t, 'e) Result, 'x) promise" where
  "Future_err reason = Future_constructor \<lparr>sync = [CallErr reason], throws = None, later = []\<rparr>"

text \<open>
  The loop of \<open>join\<close> over the array \<open>Promise.all\<close> delivers, with the two arrays it
  pushes to. A slot that is \<open>undefined\<close> makes \<open>result.isOk()\<close> a \<open>TypeError\<close>.
\<close>

fun join_loop ::
  "('t, 'e) Result option list \<Rightarrow> 'e list \<Rightarrow> 't list \<Rightarrow> ('e, 'r) failure + ('e list \<times> 't list)" where
  "join_loop [] errors values = Inr (errors, values)"
| "join_loop (None # results) errors values = Inl TypeError"
| "join_loop (Some result # results) errors values =
     (if Result_isOk result then
        (case Result_unwrap result of
           Inl x \<Rightarrow> Inl x
         | Inr v \<Rightarrow> join_loop results errors (values @ [v]))
      else
        (case Result_unwrapErr result of
           Inl x \<Rightarrow> Inl x
         | Inr e \<Rightarrow> join_loop results (errors @ [e]) values))"

definition join_onFulfilled ::
  "('t, 'e) Result option list \<Rightarrow> ('t list, 'e list) call list \<times> (('e, 'r) failure + unit)" where
  "join_onFulfilled results =
     (case join_loop results [] [] of
        Inl x \<Rightarrow> ([], Inl x)
      | Inr (errors, values) \<Rightarrow> if length errors \<noteq> 0 then err_cb errors else ok_cb values)"

text \<open>
  \<^verbatim>\<open>new Future((ok, err) => { Promise.all(futures).then((results) => { ... }) })\<close>
\<close>

definition join_reactions ::
  "(('t, 'e) Result, ('e, 'r) failure) promise list \<Rightarrow> nat list \<Rightarrow>
     ('t list, 'e list) call list \<times> (unit, ('e, 'r) failure) promise" where
  "join_reactions futures order = promise_then (Promise_all futures order) join_onFulfilled"

definition Future_join ::
  "(('t, 'e) Result, ('e, 'r) failure) promise list \<Rightarrow> nat list \<Rightarrow> (('t list, 'e list) Result, 'x) promise" where
  "Future_join futures order =
     Future_constructor \<lparr>sync = [], throws = None, later = fst (join_reactions futures order)\<rparr>"

section \<open>The spec's partition of settled results\<close>

text \<open>
  The spec's words for \<open>join\<close>: "collects every Ok payload into an ordered sequence of
  values (preserving input order) and every Err payload into an ordered sequence of
  errors (preserving input order of occurrence among the Err ones)". These two functions
  follow those words, not the code; \<open>join_loop\<close> above follows the code.
\<close>

fun value_sequence :: "('t, 'e) Result list \<Rightarrow> 't list" where
  "value_sequence [] = []"
| "value_sequence (Ok v # rs) = v # value_sequence rs"
| "value_sequence (Err e # rs) = value_sequence rs"

fun error_sequence :: "('t, 'e) Result list \<Rightarrow> 'e list" where
  "error_sequence [] = []"
| "error_sequence (Ok v # rs) = error_sequence rs"
| "error_sequence (Err e # rs) = e # error_sequence rs"

text \<open>
  The state \<open>Promise.all\<close> is in when input \<open>i\<close> fulfils with \<open>rs ! i\<close> for every \<open>i\<close>
  and exactly the inputs in \<open>D\<close> have completed so far: the invariant of its run.
\<close>

definition fulfilled_state :: "'a list \<Rightarrow> nat set \<Rightarrow> ('a, 'x) all_state" where
  "fulfilled_state rs D =
     \<lparr>elements = map (\<lambda>i. if i \<in> D then Some (rs ! i) else None) [0..<length rs],
      alreadyCalled = D,
      remainingElementsCount = length rs - card D,
      capability = (if card D = length rs then Fulfilled (map Some rs) else Pending)\<rparr>"

section \<open>Option: the variant tag, unwrap and the function arguments\<close>

lemmas Option_defs = Option_Some_def Option_None_def Option_isSome_def Option_isNone_def
  Option_unwrap_def Option_unwrapOr_def Option_unwrapOrElse_def Option_map_def Option_or_def
  Option_orElse_def Option_and_def Option_andThen_def Option_match_def

text \<open>
  C10. The variant is decided by the tag alone. For every payload \<open>v\<close>, \<open>undefined\<close>
  included, \<open>Some(v).isSome()\<close> is true, \<open>Some(v).isNone()\<close> is false and
  \<open>Some(v).unwrap()\<close> returns \<open>v\<close> without raising. \<open>Some(undefined)\<close> and \<open>None()\<close>
  store the same payload and still differ in \<open>isSome\<close>, in \<open>unwrap\<close> and as values.
\<close>

theorem Option_Some_decided_by_tag:
  "Option_isSome (Option_Some v) = True
   \<and> Option_isNone (Option_Some v) = False
   \<and> Option_unwrap (Option_Some v) = Inr v
   \<and> p_value (Option_Some Undefined) = p_value Option_None
   \<and> Option_isSome (Option_Some Undefined) = True
   \<and> Option_isSome Option_None = False
   \<and> Option_unwrap (Option_Some Undefined) = Inr Undefined
   \<and> Option_unwrap Option_None = Inl (Error ''Called Option::unwrap on None'')
   \<and> Option_Some Undefined \<noteq> Option_None"
  by (simp add: Option_Some_def Option_None_def Option_isSome_def Option_isNone_def
      Option_unwrap_def)

text \<open>
  C6. \<open>unwrap\<close> returns the payload of a \<open>Some\<close> and fails on \<open>None\<close> with the error
  "Called Option::unwrap on None". No other operation raises of its own: \<open>isSome\<close>,
  \<open>isNone\<close>, \<open>unwrapOr\<close>, \<open>or\<close> and \<open>and\<close> are plain functions that return a value
  also on \<open>None\<close>, and an exception that leaves \<open>unwrapOrElse\<close>, \<open>map\<close>, \<open>orElse\<close>,
  \<open>andThen\<close> or \<open>match\<close> is one that the caller's function threw when the operation
  invoked it on the active branch.
\<close>

theorem Option_unwrap_only_raiser:
  "Option_unwrap (Option_Some v) = Inr v
   \<and> Option_unwrap Option_None = Inl (Error ''Called Option::unwrap on None'')
   \<and> Option_isSome Option_None = False
   \<and> Option_isNone Option_None = True
   \<and> Option_unwrapOr Option_None d = d
   \<and> Option_or Option_None other = other
   \<and> Option_and Option_None other' = Option_None
   \<and> (fst (Option_unwrapOrElse this dv s) = Inl e \<longrightarrow> Option_isNone this \<and> fst (dv s) = Inl e)
   \<and> (fst (Option_map this f s) = Inl e \<longrightarrow> Option_isSome this \<and> fst (f (p_value this) s) = Inl e)
   \<and> (fst (Option_orElse this g s) = Inl e \<longrightarrow> Option_isNone this \<and> fst (g s) = Inl e)
   \<and> (fst (Option_andThen this h s) = Inl e \<longrightarrow> Option_isSome this \<and> fst (h (p_value this) s) = Inl e)
   \<and> (fst (Option_match this sm nn s) = Inl e \<longrightarrow>
        (if Option_isSome this then fst (sm (p_value this) s) = Inl e else fst (nn s) = Inl e))"
  by (auto simp: Option_defs split: prod.splits sum.splits if_splits)

theorem Option_unwrap_only_raiser_witness:
  "fst (Option_unwrapOrElse (Option_None :: nat Option)
          (\<lambda>s. (Inl (Thrown ''f''), Suc s)) (0::nat)) = Inl (Thrown ''f'')
   \<and> Option_isNone (Option_None :: nat Option)
   \<and> fst (Option_map (Option_Some (Val (1::nat)))
          (\<lambda>v s. (Inl (Thrown ''f'') :: string exn + nat jsval, Suc s)) (0::nat)) = Inl (Thrown ''f'')
   \<and> Option_isSome (Option_Some (Val (1::nat)))
   \<and> Option_unwrap (Option_None :: nat Option)
        = (Inl (Error ''Called Option::unwrap on None'') :: string exn + nat jsval)"
proof -
  let ?d = "\<lambda>s::nat. (Inl (Thrown ''f'') :: string exn + nat jsval, Suc s)"
  let ?f = "\<lambda>(v::nat jsval) s::nat. (Inl (Thrown ''f'') :: string exn + nat jsval, Suc s)"
  have none: "fst (Option_unwrapOrElse (Option_None :: nat Option) ?d 0) = Inl (Thrown ''f'')"
    by (simp add: Option_unwrapOrElse_def Option_None_def)
  have some: "fst (Option_map (Option_Some (Val (1::nat))) ?f 0) = Inl (Thrown ''f'')"
    by (simp add: Option_map_def Option_Some_def)
  show ?thesis
    using Option_unwrap_only_raiser [where this = "Option_None :: nat Option" and dv = ?d
        and s = "0::nat" and e = "Thrown ''f''" and v = "Val (1::nat)"] none
      Option_unwrap_only_raiser [where this = "Option_Some (Val (1::nat))" and f = ?f
        and s = "0::nat" and e = "Thrown ''f''"] some
    by (simp add: Option_defs)
qed

text \<open>
  C7. A function argument is never invoked on the inactive branch: on \<open>None\<close>, \<open>map\<close>
  and \<open>andThen\<close> return \<open>None\<close> and leave the caller's state as it was, whatever the
  function would have done or thrown; on \<open>Some(v)\<close>, \<open>unwrapOrElse\<close> returns \<open>v\<close> and
  leaves the state as it was; on \<open>None\<close>, \<open>unwrapOrElse(f)\<close> is the call \<open>f()\<close>.
  On the active branch, \<open>Some(v).map(f).unwrap()\<close> is the call \<open>f(v)\<close> and
  \<open>Some(v).andThen(f)\<close> is the call \<open>f(v)\<close>, effects and exceptions included.
\<close>

theorem Option_inactive_branch_not_invoked:
  "Option_map Option_None f s = (Inr Option_None, s)
   \<and> Option_isNone (Option_None :: 'b Option) = True
   \<and> Option_andThen Option_None g s = (Inr Option_None, s)
   \<and> Option_unwrapOrElse (Option_Some v) d s = (Inr v, s)
   \<and> Option_unwrapOrElse Option_None d s = d s
   \<and> chain (Option_map (Option_Some v) f) (\<lambda>r. lift (Option_unwrap r)) s = f v s
   \<and> Option_andThen (Option_Some v) g s = g v s"
  by (auto simp: Option_defs chain_def lift_def split: prod.splits sum.splits)

section \<open>Promises: a settled promise stays as it is\<close>

lemma resolve_settled: "p \<noteq> Pending \<Longrightarrow> resolve v p = p"
  by (cases p) (simp_all add: resolve_def)

lemma reject_settled: "p \<noteq> Pending \<Longrightarrow> reject x p = p"
  by (cases p) (simp_all add: reject_def)

lemma apply_settle_settled: "p \<noteq> Pending \<Longrightarrow> apply_settle c p = p"
  by (cases c) (simp_all add: resolve_settled reject_settled)

lemma fold_apply_settle_settled: "p \<noteq> Pending \<Longrightarrow> fold apply_settle cs p = p"
  by (induction cs) (simp_all add: apply_settle_settled)

lemma wire_Pending:
  "apply_settle (wire c) Pending
     = Fulfilled (case c of CallOk v \<Rightarrow> Result_ok v | CallErr e \<Rightarrow> Result_err e)"
  by (cases c) (simp_all add: resolve_def)

lemma fold_wire_Pending:
  "fold apply_settle (map wire cs) Pending =
     (case cs of [] \<Rightarrow> Pending
      | c # ds \<Rightarrow> Fulfilled (case c of CallOk v \<Rightarrow> Result_ok v | CallErr e \<Rightarrow> Result_err e))"
  by (cases cs) (simp_all add: wire_Pending fold_apply_settle_settled)

lemma fold_wire_not_Rejected:
  "p \<noteq> Rejected x \<Longrightarrow> fold apply_settle (map wire cs) p \<noteq> Rejected x"
  by (cases "p = Pending") (auto simp: fold_wire_Pending fold_apply_settle_settled split: list.splits)

lemma Future_constructor_no_throw:
  "Future_constructor \<lparr>sync = [], throws = None, later = cs\<rparr> \<noteq> Rejected x"
  by (simp add: Future_constructor_def Promise_constructor_def fold_wire_not_Rejected)

section \<open>Promise.all: collected by index, rejected by the first rejection\<close>

lemma all_start_fulfilled: "all_start (length rs) = fulfilled_state rs {}"
  by (simp add: all_start_def fulfilled_state_def resolve_def map_replicate_const)

lemma settles_fulfilled_state:
  assumes D: "D \<subseteq> {..<length rs}"
  shows "settles (map Fulfilled rs) i (fulfilled_state rs D)
           = fulfilled_state rs (if i < length rs then insert i D else D)"
proof (cases "i < length rs \<and> i \<notin> D")
  case False
  then show ?thesis
    by (auto simp: settles_def resolveElement_def fulfilled_state_def insert_absorb)
next
  case True
  note new = this
  let ?n = "length rs"
  let ?D' = "insert i D"
  have fin: "finite D" using D by (rule finite_subset) simp
  have sub': "?D' \<subseteq> {..<?n}" using D new by simp
  have cD': "card ?D' = Suc (card D)" using fin new by simp
  have le': "card ?D' \<le> ?n" using card_mono [OF _ sub'] by simp
  have lt: "card D < ?n" using cD' le' by simp
  have el: "(map (\<lambda>j. if j \<in> D then Some (rs ! j) else None) [0..<?n])[i := Some (rs ! i)]
              = map (\<lambda>j. if j \<in> ?D' then Some (rs ! j) else None) [0..<?n]"
    using new by (intro nth_equalityI) (auto simp: nth_list_update)
  have full: "card ?D' = ?n \<Longrightarrow> map (\<lambda>j. if j \<in> ?D' then Some (rs ! j) else None) [0..<?n] = map Some rs"
  proof -
    assume "card ?D' = ?n"
    then have "?D' = {..<?n}" using sub' by (simp add: card_subset_eq)
    then show ?thesis by (intro nth_equalityI) auto
  qed
  have rem: "(?n - card D - 1 = 0) = (card ?D' = ?n)" using cD' le' by arith
  show ?thesis
  proof (cases "card ?D' = ?n")
    case True
    then have r0: "?n - card D - 1 = 0" using rem by simp
    show ?thesis using new lt True r0 cD' el full [OF True]
      by (simp add: settles_def resolveElement_def fulfilled_state_def Let_def resolve_def)
  next
    case False
    then have r0: "?n - card D - 1 \<noteq> 0" using rem by simp
    show ?thesis using new lt False r0 cD' el
      by (simp add: settles_def resolveElement_def fulfilled_state_def Let_def)
  qed
qed

lemma fold_settles_fulfilled_state:
  "D \<subseteq> {..<length rs} \<Longrightarrow>
     fold (settles (map Fulfilled rs)) order (fulfilled_state rs D)
       = fulfilled_state rs (D \<union> (set order \<inter> {..<length rs}))"
proof (induction order arbitrary: D)
  case Nil
  then show ?case by simp
next
  case (Cons i order)
  let ?D' = "if i < length rs then insert i D else D"
  have sub: "?D' \<subseteq> {..<length rs}" using Cons.prems by auto
  have eq: "?D' \<union> (set order \<inter> {..<length rs}) = D \<union> (set (i # order) \<inter> {..<length rs})"
    by auto
  show ?case
    using Cons.IH [OF sub] by (simp add: settles_fulfilled_state [OF Cons.prems] eq del: set_simps)
qed

lemma Promise_all_fulfilled:
  "(Promise_all (map Fulfilled rs) order :: ('a option list, 'x) promise) =
     (if {..<length rs} \<subseteq> set order then Fulfilled (map Some rs) else Pending)"
proof -
  let ?n = "length rs"
  let ?D = "set order \<inter> {..<?n}"
  have "card ?D = ?n \<longleftrightarrow> {..<?n} \<subseteq> set order"
  proof
    assume "card ?D = ?n"
    then have "?D = {..<?n}" by (intro card_subset_eq) auto
    then show "{..<?n} \<subseteq> set order" by blast
  next
    assume "{..<?n} \<subseteq> set order"
    then have "?D = {..<?n}" by blast
    then show "card ?D = ?n" by simp
  qed
  note card_iff = this
  have "fold (settles (map Fulfilled rs)) order (all_start (length rs))
          = (fulfilled_state rs ?D :: ('a, 'x) all_state)"
    using fold_settles_fulfilled_state [of "{}" rs order] by (simp add: all_start_fulfilled)
  then have "Promise_all (map Fulfilled rs) order
               = capability (fulfilled_state rs ?D :: ('a, 'x) all_state)"
    by (simp add: Promise_all_def)
  also have "\<dots> = (if card ?D = ?n then Fulfilled (map Some rs) else Pending)"
    by (simp add: fulfilled_state_def)
  finally show ?thesis
    by (simp only: card_iff)
qed

lemma join_loop_partition:
  "join_loop (map Some rs) errors values
     = Inr (errors @ error_sequence rs, values @ value_sequence rs)"
  by (induction rs arbitrary: errors "values" rule: value_sequence.induct) simp_all

lemma reject_cases: "reject x p = (if p = Pending then Rejected x else p)"
  by (cases p) (simp_all add: reject_def)

lemma Promise_all_rejected:
  fixes futures :: "('a, 'x) promise list"
  assumes i: "i < length futures" and rej: "futures ! i = Rejected x" and ord: "i \<in> set order"
  shows "\<exists>y. Rejected y \<in> set futures \<and> Promise_all futures order = Rejected y"
proof -
  define n where "n = length futures"
  define F where "F = {j. j < n \<and> (\<exists>v. futures ! j = Fulfilled v)}"
  define Q :: "('a, 'x) all_state \<Rightarrow> bool"
    where "Q s \<longleftrightarrow> (\<exists>y. Rejected y \<in> set futures \<and> capability s = Rejected y)" for s
  define P :: "('a, 'x) all_state \<Rightarrow> bool"
    where "P s \<longleftrightarrow> alreadyCalled s \<subseteq> F \<and> remainingElementsCount s = n - card (alreadyCalled s)
                    \<and> (capability s = Pending \<or> Q s)" for s
  have F_sub: "F \<subseteq> {..<n} - {i}" using rej by (auto simp: F_def)
  have fin: "finite F" using F_sub by (rule finite_subset) simp
  have "card F \<le> card ({..<n} - {i})" using F_sub by (intro card_mono) simp_all
  then have cF: "card F < n" using i by (simp add: n_def)
  have resolveElement_P: "P (resolveElement j v s)" if "P s" "j \<in> F" for j v s
  proof (cases "j \<in> alreadyCalled s")
    case True
    then show ?thesis using that by (simp add: resolveElement_def)
  next
    case False
    let ?C = "insert j (alreadyCalled s)"
    have sub: "?C \<subseteq> F" using that by (simp add: P_def)
    have finC: "finite (alreadyCalled s)" using that fin by (auto simp: P_def intro: finite_subset)
    have c: "card ?C = Suc (card (alreadyCalled s))" using finC False by simp
    have "card ?C \<le> card F" using sub fin by (intro card_mono)
    then have lt: "card ?C < n" using cF by simp
    then have nz: "n - card (alreadyCalled s) - 1 \<noteq> 0" using c by simp
    have eq: "n - card (alreadyCalled s) - 1 = n - card ?C" using c by simp
    show ?thesis using that False nz eq sub lt
      by (simp add: resolveElement_def Let_def P_def Q_def)
  qed
  have resolveElement_cap: "capability (resolveElement j v s) = capability s" if "P s" "j \<in> F" for j v s
  proof (cases "j \<in> alreadyCalled s")
    case True
    then show ?thesis by (simp add: resolveElement_def)
  next
    case False
    let ?C = "insert j (alreadyCalled s)"
    have sub: "?C \<subseteq> F" using that by (simp add: P_def)
    have finC: "finite (alreadyCalled s)" using that fin by (auto simp: P_def intro: finite_subset)
    have c: "card ?C = Suc (card (alreadyCalled s))" using finC False by simp
    have "card ?C \<le> card F" using sub fin by (intro card_mono)
    then have lt: "card ?C < n" using cF by simp
    then have nz: "n - card (alreadyCalled s) - 1 \<noteq> 0" using c by simp
    show ?thesis using that False nz
      by (simp add: resolveElement_def Let_def P_def)
  qed
  have step_P: "P (settles futures j s)" if "P s" for j s
  proof (cases "j < n")
    case False
    then show ?thesis using that by (simp add: settles_def n_def)
  next
    case True
    show ?thesis
    proof (cases "futures ! j")
      case Pending
      then show ?thesis using that True by (simp add: settles_def n_def)
    next
      case (Fulfilled v)
      then have "j \<in> F" using True by (simp add: F_def)
      then show ?thesis using that True Fulfilled resolveElement_P by (simp add: settles_def n_def)
    next
      case (Rejected y)
      then have "Rejected y \<in> set futures" using True nth_mem [of j futures] by (simp add: n_def)
      then show ?thesis using that True Rejected
        by (auto simp: settles_def n_def P_def Q_def reject_cases)
    qed
  qed
  have step_Q: "Q (settles futures j s)" if "P s" "Q s \<or> j = i" for j s
  proof (cases "j < n")
    case False
    then show ?thesis using that i by (auto simp: settles_def n_def)
  next
    case True
    show ?thesis
    proof (cases "futures ! j")
      case Pending
      then show ?thesis using that True rej by (auto simp: settles_def n_def)
    next
      case (Fulfilled v)
      then have "j \<in> F" using True by (simp add: F_def)
      then show ?thesis using that True Fulfilled rej resolveElement_cap [of s j v]
        by (auto simp: settles_def n_def Q_def)
    next
      case (Rejected y)
      then have "Rejected y \<in> set futures" using True nth_mem [of j futures] by (simp add: n_def)
      then show ?thesis using that True Rejected
        by (auto simp: settles_def n_def P_def Q_def reject_cases)
    qed
  qed
  have run: "Q (fold (settles futures) js s)" if "P s" "Q s \<or> i \<in> set js" for js s
    using that
  proof (induction js arbitrary: s)
    case Nil
    then show ?case by simp
  next
    case (Cons j js)
    have P': "P (settles futures j s)" using Cons.prems(1) by (rule step_P)
    have "Q (settles futures j s) \<or> i \<in> set js"
      using Cons.prems step_Q [of s j] by auto
    then show ?case using Cons.IH [OF P'] by simp
  qed
  have "n \<noteq> 0" using i by (auto simp: n_def)
  then have "P (all_start n)" by (simp add: all_start_def P_def)
  then have "Q (fold (settles futures) order (all_start n))" using ord by (intro run) simp_all
  then show ?thesis by (simp add: Q_def Promise_all_def n_def)
qed


section \<open>Future: settlement\<close>

text \<open>
  C5. A Future makes at most one transition out of pending, and what it settled to
  stands. Once a Future is no longer pending, any further calls of its executor's
  callbacks \<open>ok\<close> and \<open>err\<close> leave it as it is (each such call is a call of \<open>resolve\<close>
  on a settled promise). The first call an executor makes before it returns or throws,
  or the first call made later by an executor that did not throw, decides the Result:
  \<open>Ok\<close> of the value for \<open>ok\<close>, \<open>Err\<close> of the reason for \<open>err\<close>, whatever calls follow.
\<close>

theorem Future_settles_once:
  "(Future_constructor ex \<noteq> Pending \<longrightarrow>
      Future_constructor (ex\<lparr>later := later ex @ more_calls\<rparr>) = Future_constructor ex)
   \<and> (p \<noteq> Pending \<longrightarrow> fold apply_settle (map wire more_calls) p = p)
   \<and> Future_constructor \<lparr>sync = c # cs, throws = t, later = ds\<rparr>
       = Fulfilled (case c of CallOk v \<Rightarrow> Result_ok v | CallErr e \<Rightarrow> Result_err e)
   \<and> Future_constructor \<lparr>sync = [], throws = None, later = c # ds\<rparr>
       = Fulfilled (case c of CallOk v \<Rightarrow> Result_ok v | CallErr e \<Rightarrow> Result_err e)"
  by (auto simp: Future_constructor_def Promise_constructor_def Let_def wire_Pending
      fold_apply_settle_settled reject_settled split: option.splits)

theorem Future_settles_once_witness:
  "Future_constructor \<lparr>sync = [CallOk (1::nat)], throws = None, later = []\<rparr>
     = (Fulfilled (Result_ok 1) :: ((nat, nat) Result, string) promise)
   \<and> Future_constructor \<lparr>sync = [CallOk (1::nat)], throws = None,
         later = [CallErr (2::nat), CallOk 3]\<rparr>
     = (Fulfilled (Result_ok 1) :: ((nat, nat) Result, string) promise)
   \<and> fold apply_settle (map wire [CallErr (2::nat), CallOk (3::nat)])
         (Fulfilled (Result_err 7) :: ((nat, nat) Result, string) promise)
     = Fulfilled (Result_err 7)"
proof -
  let ?ex = "\<lparr>sync = [CallOk (1::nat)], throws = None :: string option,
               later = [] :: (nat, nat) call list\<rparr>"
  let ?more = "[CallErr (2::nat), CallOk (3::nat)]"
  let ?p = "Fulfilled (Result_err 7) :: ((nat, nat) Result, string) promise"
  have settled: "Future_constructor ?ex \<noteq> Pending"
    by (simp add: Future_constructor_def Promise_constructor_def resolve_def)
  have other: "?p \<noteq> Pending"
    by simp
  note inst = Future_settles_once [of ?ex ?more ?p "CallOk (1::nat) :: (nat, nat) call"
      "[] :: (nat, nat) call list" "None :: string option" "[] :: (nat, nat) call list"]
  have 1: "Future_constructor (?ex\<lparr>later := later ?ex @ ?more\<rparr>) = Future_constructor ?ex"
    using inst settled by blast
  have 2: "fold apply_settle (map wire ?more) ?p = ?p"
    using inst other by blast
  have 3: "Future_constructor ?ex = Fulfilled (Result_ok 1)"
    using inst by auto
  show ?thesis
    using 1 2 3 by simp
qed

text \<open>
  C2, as the code has it. A Future completes through the native rejection channel
  exactly when its executor throws before it has called either callback; the rejection
  reason is the thrown value. In every other case a Future is pending or fulfilled with
  a Result, and so is every Future built by \<open>ok\<close>, \<open>err\<close>, \<open>from\<close>, \<open>parse\<close> and
  \<open>join\<close>, whose executors do not throw.
\<close>

theorem Future_rejects_iff_executor_throws_first:
  "(Future_constructor ex = Rejected x) = (sync ex = [] \<and> throws ex = Some x)
   \<and> Future_ok v \<noteq> Rejected x
   \<and> Future_err e \<noteq> Rejected x
   \<and> Future_from p \<noteq> Rejected x
   \<and> Future_parse q \<noteq> Rejected x
   \<and> Future_join futures order \<noteq> Rejected x"
proof -
  have ctor: "(Future_constructor ex = Rejected x) = (sync ex = [] \<and> throws ex = Some x)"
  proof (cases "sync ex")
    case (Cons c cs)
    then show ?thesis
      by (auto simp: Future_constructor_def Promise_constructor_def Let_def wire_Pending
          fold_apply_settle_settled reject_settled split: option.splits)
  next
    case Nil
    show ?thesis
    proof (cases "throws ex")
      case None
      then show ?thesis using Nil
        by (simp add: Future_constructor_def Promise_constructor_def fold_wire_not_Rejected)
    next
      case (Some y)
      then show ?thesis using Nil
        by (auto simp: Future_constructor_def Promise_constructor_def reject_def
            fold_apply_settle_settled)
    qed
  qed
  have "Future_ok v \<noteq> Rejected x" "Future_err e \<noteq> Rejected x"
    by (simp_all add: Future_ok_def Future_err_def Future_constructor_def
        Promise_constructor_def resolve_def)
  then show ?thesis
    using ctor
    by (simp add: Future_from_def Future_parse_def Future_join_def Future_constructor_no_throw)
qed

text \<open>
  The claim C2 as the spec states it, "for every executor supplied to the constructor",
  fails: an executor that throws at once gives a Future that is rejected.
\<close>

theorem Future_constructor_rejects_on_throw:
  "Future_constructor \<lparr>sync = [], throws = Some ''boom'', later = []\<rparr>
     = (Rejected ''boom'' :: ((nat, nat) Result, string) promise)"
  by (simp add: Future_constructor_def Promise_constructor_def reject_def)

section \<open>Future: the factories from and parse\<close>

lemmas derived_defs = derived_Future_def Future_then_def Future_catch_def promise_then_def
  promise_catch_def ok_cb_def err_cb_def Future_constructor_def Promise_constructor_def
  resolve_def reject_def





section \<open>Future: join\<close>

lemma fold_settles_Nil: "fold (settles []) order s = s"
  by (induction order) (simp_all add: settles_def)

text \<open>
  C9. \<open>Future.join\<close> of the empty sequence settles to \<open>Ok\<close> of the empty sequence.
\<close>

theorem Future_join_empty:
  "Future_join [] order = Fulfilled (Result_ok [])"
  by (simp add: Future_join_def join_reactions_def Promise_all_def fold_settles_Nil all_start_def
      promise_then_def join_onFulfilled_def ok_cb_def resolve_def
      Future_constructor_def Promise_constructor_def)

text \<open>
  C1. Let every input Future settle, input \<open>i\<close> to the Result \<open>rs ! i\<close>, and let
  \<open>order\<close> be any order in which inputs complete. While some input has not completed
  the joined Future is pending. Once all have, it is settled: to \<open>Err\<close> of the error
  sequence when that is not empty, to \<open>Ok\<close> of the value sequence otherwise. Both
  sequences are in input order, whatever the order of completion.
\<close>

theorem Future_join_partitions:
  "Future_join (map Fulfilled rs) order =
     (if {..<length rs} \<subseteq> set order then
        (if error_sequence rs \<noteq> [] then Fulfilled (Result_err (error_sequence rs))
         else Fulfilled (Result_ok (value_sequence rs)))
      else Pending)"
  by (simp add: Future_join_def join_reactions_def Promise_all_fulfilled promise_then_def
      join_onFulfilled_def join_loop_partition ok_cb_def err_cb_def
      Future_constructor_def Promise_constructor_def resolve_def)

theorem Future_join_partitions_witness:
  "(Future_join
      [Fulfilled (Ok (0::nat)), Fulfilled (Err (1::nat)),
       Fulfilled (Err 2) :: ((nat, nat) Result, (nat, unit) failure) promise] [2, 0, 1]
      :: ((nat list, nat list) Result, unit) promise) = Fulfilled (Err [1, 2])
   \<and> (Future_join
      [Fulfilled (Ok (1::nat)),
       Fulfilled (Ok 2) :: ((nat, nat) Result, (nat, unit) failure) promise] [1, 0]
      :: ((nat list, nat list) Result, unit) promise) = Fulfilled (Ok [1, 2])
   \<and> (Future_join
      [Fulfilled (Ok (1::nat)),
       Fulfilled (Ok 2) :: ((nat, nat) Result, (nat, unit) failure) promise] [1]
      :: ((nat list, nat list) Result, unit) promise) = Pending"
proof -
  have a: "{..<length [Ok (0::nat), Err (1::nat), Err 2]} \<subseteq> set [2, 0, 1]"
    by (auto simp: less_Suc_eq numeral_3_eq_3)
  have b: "{..<length [Ok (1::nat), Ok 2 :: (nat, nat) Result]} \<subseteq> set [1, 0]"
    by (auto simp: less_Suc_eq numeral_2_eq_2)
  have c: "\<not> {..<length [Ok (1::nat), Ok 2 :: (nat, nat) Result]} \<subseteq> set [1]"
    by (auto simp: numeral_2_eq_2)
  show ?thesis
    using Future_join_partitions [of "[Ok (0::nat), Err (1::nat), Err 2]" "[2, 0, 1]"]
      Future_join_partitions [of "[Ok (1::nat), Ok 2 :: (nat, nat) Result]" "[1, 0]"]
      Future_join_partitions [of "[Ok (1::nat), Ok 2 :: (nat, nat) Result]" "[1]"] a b c
    by (simp add: Result_ok_def Result_err_def)
qed

lemma error_sequence_append:
  "error_sequence (rs1 @ rs2) = error_sequence rs1 @ error_sequence rs2"
  by (induction rs1 rule: error_sequence.induct) simp_all

lemma join_fulfilled_errors:
  "{..<length rs} \<subseteq> set order \<Longrightarrow> error_sequence rs \<noteq> [] \<Longrightarrow>
     Future_join (map Fulfilled rs) order = Fulfilled (Result_err (error_sequence rs))"
  by (simp add: Future_join_def join_reactions_def Promise_all_fulfilled promise_then_def
      join_onFulfilled_def join_loop_partition err_cb_def
      Future_constructor_def Promise_constructor_def resolve_def)

lemma Future_from_native_rejected:
  "Future_from (NativePromise (Rejected e)) = Fulfilled (Result_err e)"
  by (simp add: Future_from_def from_reactions_def derived_defs)

text \<open>
  C4, as the code has it. When some input Future is itself rejected (its own promise
  fails natively: its executor threw before calling a callback) and that rejection is
  among the completions, \<open>Promise.all\<close> is rejected with the reason of a rejected input;
  the reaction of \<open>join\<close> does not run, so no error sequence is built and neither \<open>ok\<close>
  nor \<open>err\<close> is called; the promise derived by \<open>then\<close> is rejected with that reason with
  nothing handling it, and the joined Future stays pending. An input built by
  \<open>Future.from\<close> from a native promise that fails with reason \<open>e\<close> is not such an input:
  it settles to \<open>Err(e)\<close>, and once it and the other inputs, which settle to the Results
  \<open>rs1\<close> before it and \<open>rs2\<close> after it, have all completed, the joined Future settles to
  \<open>Err\<close> of the error sequence, with \<open>e\<close> at the input's place in it.
\<close>

theorem Future_join_native_failure:
  "(i < length futures \<and> futures ! i = Rejected x \<and> i \<in> set order \<longrightarrow>
      (\<exists>y. Rejected y \<in> set futures
         \<and> Promise_all futures order = Rejected y
         \<and> join_reactions futures order = ([], Rejected y)
         \<and> Future_join futures order = Pending))
   \<and> ({..<length rs1 + Suc (length rs2)} \<subseteq> set order' \<longrightarrow>
        Future_join
          (map Fulfilled rs1 @ Future_from (NativePromise (Rejected e)) # map Fulfilled rs2) order'
          = Fulfilled (Result_err (error_sequence rs1 @ e # error_sequence rs2)))"
proof (intro conjI impI)
  assume "i < length futures \<and> futures ! i = Rejected x \<and> i \<in> set order"
  then obtain y where y: "Rejected y \<in> set futures" "Promise_all futures order = Rejected y"
    using Promise_all_rejected [of i futures x order] by blast
  then show "\<exists>y. Rejected y \<in> set futures
         \<and> Promise_all futures order = Rejected y
         \<and> join_reactions futures order = ([], Rejected y)
         \<and> Future_join futures order = Pending"
    by (simp add: Future_join_def join_reactions_def promise_then_def
        Future_constructor_def Promise_constructor_def)
next
  let ?rs = "rs1 @ Err e # rs2"
  assume "{..<length rs1 + Suc (length rs2)} \<subseteq> set order'"
  then have all_in: "{..<length ?rs} \<subseteq> set order'" by simp
  have inputs: "map Fulfilled rs1 @ Future_from (NativePromise (Rejected e)) # map Fulfilled rs2
                  = map Fulfilled ?rs"
    by (simp add: Future_from_native_rejected Result_err_def)
  have errors: "error_sequence ?rs = error_sequence rs1 @ e # error_sequence rs2"
    by (simp add: error_sequence_append)
  have ne: "error_sequence ?rs \<noteq> []"
    by (simp add: errors)
  show "Future_join
          (map Fulfilled rs1 @ Future_from (NativePromise (Rejected e)) # map Fulfilled rs2) order'
          = Fulfilled (Result_err (error_sequence rs1 @ e # error_sequence rs2))"
    unfolding inputs errors [symmetric] by (rule join_fulfilled_errors [OF all_in ne])
qed

theorem Future_join_native_failure_witness:
  "(Future_join
      [Future_ok (0::nat),
       Future_constructor \<lparr>sync = [], throws = Some (Native ''x''), later = []\<rparr>,
       Future_err (2::nat) :: ((nat, nat) Result, (nat, string) failure) promise]
      [2, 0, 1]
    :: ((nat list, nat list) Result, unit) promise) = Pending
   \<and> (Future_join
      [Fulfilled (Ok (0::nat)), Fulfilled (Err (1::nat)),
       Future_from (NativePromise (Rejected 9)),
       Fulfilled (Err 2) :: ((nat, nat) Result, (nat, string) failure) promise]
      [3, 1, 0, 2]
    :: ((nat list, nat list) Result, unit) promise) = Fulfilled (Err [1, 9, 2])"
proof -
  let ?fs = "[Future_ok (0::nat),
       Future_constructor \<lparr>sync = [], throws = Some (Native ''x''), later = []\<rparr>,
       Future_err (2::nat) :: ((nat, nat) Result, (nat, string) failure) promise]"
  let ?rs1 = "[Ok (0::nat), Err (1::nat)] :: (nat, nat) Result list"
  let ?rs2 = "[Err (2::nat)] :: (nat, nat) Result list"
  have hyp: "1 < length ?fs \<and> ?fs ! 1 = Rejected (Native ''x'') \<and> (1::nat) \<in> set [2, 0, 1]"
    by (simp add: Future_constructor_def Promise_constructor_def reject_def)
  have "\<exists>y. Rejected y \<in> set ?fs
           \<and> Promise_all ?fs [2, 0, 1] = Rejected y
           \<and> join_reactions ?fs [2, 0, 1] = ([], Rejected y)
           \<and> (Future_join ?fs [2, 0, 1] :: ((nat list, nat list) Result, unit) promise) = Pending"
    using hyp by (rule Future_join_native_failure [THEN conjunct1, rule_format])
  then have rejected: "(Future_join ?fs [2, 0, 1]
      :: ((nat list, nat list) Result, unit) promise) = Pending"
    by blast
  have all_in: "{..<length ?rs1 + Suc (length ?rs2)} \<subseteq> set [3, 1, 0, 2]"
    by (auto simp: less_Suc_eq numeral_eq_Suc)
  have "(Future_join
           (map Fulfilled ?rs1 @ Future_from (NativePromise (Rejected 9)) # map Fulfilled ?rs2)
           [3, 1, 0, 2] :: ((nat list, nat list) Result, unit) promise)
          = Fulfilled (Result_err (error_sequence ?rs1 @ 9 # error_sequence ?rs2))"
    using all_in by (rule Future_join_native_failure [THEN conjunct2, rule_format])
  then have collected: "(Future_join
      [Fulfilled (Ok (0::nat)), Fulfilled (Err (1::nat)),
       Future_from (NativePromise (Rejected 9)),
       Fulfilled (Err 2) :: ((nat, nat) Result, (nat, string) failure) promise]
      [3, 1, 0, 2]
    :: ((nat list, nat list) Result, unit) promise) = Fulfilled (Err [1, 9, 2])"
    by (simp add: Result_err_def)
  show ?thesis using rejected collected by simp
qed

text \<open>
  The claim C4 as the spec states it, with its test "join reject" in \<open>Future.test.ts\<close>,
  fails for an input built by \<open>Future.from\<close> from a native promise that fails: the
  failure is taken into the error sequence, at whatever time that input completes.
\<close>

theorem Future_join_collects_from_rejected:
  "(Future_join
      [Future_ok (0::nat), Future_err (1::nat), Future_err 2,
       Future_from (NativePromise (Rejected 9))
         :: ((nat, nat) Result, (nat, unit) failure) promise]
      [3, 1, 0, 2] :: ((nat list, nat list) Result, unit) promise)
     = Fulfilled (Result_err [1, 2, 9])"
  by code_simp

end
